theory Spec2Isabelle
  imports Complex_Main
begin

section \<open>Data model\<close>

text \<open>
  The JavaScript objects of \<^verbatim>\<open>dist/node/storage.js\<close> and
  \<^verbatim>\<open>dist/node/storage/mongodb.js\<close> are modelled by records that carry the fields
  the code reads or writes.  Block indices are integers (the chain position starts at
  \<open>-1\<close>); values are exact rationals, so the rounding of JavaScript doubles is not
  part of the model.

  An asynchronous method is modelled by a function that takes the in-memory state of
  the \<^verbatim>\<open>Storage\<close> object and the contents of the document store, and returns the
  state in which its promise ends together with the new in-memory state and store
  contents.  Every call runs to completion before the next one starts.
\<close>

datatype error =
    NotFound          \<comment> \<open>\<^verbatim>\<open>new Error('Could not find the transaction')\<close>\<close>
  | TypeError         \<comment> \<open>a property read on \<^verbatim>\<open>null\<close> or \<^verbatim>\<open>undefined\<close>\<close>
  | PersistenceError string  \<comment> \<open>the \<^verbatim>\<open>err\<close> a mongoose callback receives\<close>

text \<open>
  The state a promise ends in.  \<open>Pending\<close> is a promise on which neither
  \<^verbatim>\<open>resolve\<close> nor \<^verbatim>\<open>reject\<close> is ever called.
\<close>

datatype 'a promise = Resolved 'a | Rejected error | Pending

record vout_entry =
  vo_address :: string
  vo_asset :: string
  vo_value :: rat

text \<open>
  An element of \<^verbatim>\<open>tx.vin\<close> is a spend reference \<^verbatim>\<open>{txid, vout}\<close> as mined, a
  copy of the output it spends once \<^verbatim>\<open>getExpandedTX\<close> has replaced it, or
  \<^verbatim>\<open>undefined\<close> when the referenced position lies outside the referenced
  transaction's \<^verbatim>\<open>vout\<close> array.
\<close>

datatype vin_entry = Ref string nat | Spent vout_entry | Undefined

record tx =
  tx_txid :: string
  tx_type :: string
  tx_vin :: "vin_entry list"
  tx_vout :: "vout_entry list"
  tx_blockIndex :: "int option"
  tx_time :: "int option"

record block =
  b_index :: int
  b_hash :: string
  b_previousblockhash :: string
  b_merkleroot :: string
  b_time :: int
  b_tx :: "tx list"

record balance_entry =
  be_asset :: string
  be_balance :: rat
  be_index :: int
  be_type :: "string option"

record account =
  a_address :: string
  a_asset :: "string option"
  a_type :: string
  a_assets :: "balance_entry list"

text \<open>
  An element of the registry \<^verbatim>\<open>this.assets\<close>: the object
  \<^verbatim>\<open>{ address: d.asset, asset: d.asset, type: 'a', assets: [] }\<close> of \<^verbatim>\<open>saveBlock\<close>.
\<close>

record asset_def =
  ad_address :: string
  ad_asset :: string
  ad_type :: string
  ad_assets :: "balance_entry list"

definition account_of :: "asset_def \<Rightarrow> account" where
  "account_of a = \<lparr>a_address = ad_address a, a_asset = Some (ad_asset a),
     a_type = ad_type a, a_assets = ad_assets a\<rparr>"

text \<open>The three collections of the document store, in insertion order.\<close>

record db =
  blocks :: "block list"
  transactions :: "tx list"
  addresses :: "account list"

text \<open>
  What lies outside the two source files: for every operation of the store the
  \<^verbatim>\<open>err\<close> its callback receives (\<open>None\<close> when the operation succeeds), and
  \<^verbatim>\<open>HashHelper.normalize\<close>.  The error of an operation is a function of its
  arguments: the same call meets the same answer.  Errors raised by the engine for a
  violated unique index are among them.
\<close>

record engine =
  err_saveBlock :: "block \<Rightarrow> error option"
  err_saveTransaction :: "tx \<Rightarrow> error option"
  err_updateTransaction :: "tx \<Rightarrow> error option"
  err_getTX :: "string option \<Rightarrow> error option"
  err_getAddress :: "string \<Rightarrow> error option"
  err_saveAddress :: "account \<Rightarrow> error option"
  err_getAssetListByAddress :: "string \<Rightarrow> string \<Rightarrow> int \<Rightarrow> error option"
  err_updateBalance :: "string \<Rightarrow> string \<Rightarrow> error option"
  err_pushBalance :: "string \<Rightarrow> string \<Rightarrow> error option"
  err_getBlockCount :: "error option"
  normalize :: "string \<Rightarrow> string"

text \<open>The in-memory state of the \<^verbatim>\<open>Storage\<close> object.\<close>

record storage =
  index :: int
  blockHeight :: int
  unlinkedBlocks :: "int list"
  assets :: "asset_def list"
  assetsFlat :: "string list option"

section \<open>The document store (mongodb.js)\<close>

definition delintBlock :: "engine \<Rightarrow> block \<Rightarrow> block" where
  "delintBlock E b = b\<lparr>
     b_hash := normalize E (b_hash b),
     b_previousblockhash := normalize E (b_previousblockhash b),
     b_merkleroot := normalize E (b_merkleroot b),
     b_tx := map (\<lambda>t. t\<lparr>tx_txid := normalize E (tx_txid t),
                 tx_vout := map (\<lambda>v. v\<lparr>vo_asset := normalize E (vo_asset v)\<rparr>) (tx_vout t)\<rparr>)
               (b_tx b)\<rparr>"

text \<open>
  \<^verbatim>\<open>saveBlock\<close> of the store normalises the caller's block object in place and
  inserts it; the third component is the caller's block after the call.
\<close>

definition da_saveBlock :: "engine \<Rightarrow> db \<Rightarrow> block \<Rightarrow> unit promise \<times> db \<times> block" where
  "da_saveBlock E D b =
     (let b' = delintBlock E b in
      case err_saveBlock E b' of
        Some e \<Rightarrow> (Rejected e, D, b')
      | None \<Rightarrow> (Resolved (), D\<lparr>blocks := blocks D @ [b']\<rparr>, b'))"

definition da_saveTransaction :: "engine \<Rightarrow> db \<Rightarrow> tx \<Rightarrow> unit promise \<times> db" where
  "da_saveTransaction E D t =
     (case err_saveTransaction E t of
        Some e \<Rightarrow> (Rejected e, D)
      | None \<Rightarrow> (Resolved (), D\<lparr>transactions := transactions D @ [t]\<rparr>))"

definition da_saveAddress :: "engine \<Rightarrow> db \<Rightarrow> account \<Rightarrow> account promise \<times> db" where
  "da_saveAddress E D a =
     (case err_saveAddress E a of
        Some e \<Rightarrow> (Rejected e, D)
      | None \<Rightarrow> (Resolved a, D\<lparr>addresses := addresses D @ [a]\<rparr>))"

section \<open>Block ingestion (storage.js, saveBlock)\<close>

text \<open>
  The linking loop: \<^verbatim>\<open>indexOf\<close> finds the first occurrence of \<^verbatim>\<open>this.index + 1\<close>
  and \<^verbatim>\<open>splice\<close> removes it.
\<close>

function linkLoop :: "storage \<Rightarrow> storage" where
  "linkLoop s =
     (if index s + 1 \<in> set (unlinkedBlocks s)
      then linkLoop (s\<lparr>unlinkedBlocks := remove1 (index s + 1) (unlinkedBlocks s),
                        index := index s + 1,
                        blockHeight := blockHeight s + 1\<rparr>)
      else s)"
  by pat_completeness auto
termination
  by (relation "measure (\<lambda>s. length (unlinkedBlocks s))") (auto simp: length_remove1 dest: length_pos_if_in_set)

declare linkLoop.simps [simp del]

text \<open>
  Asset discovery for one output.  \<open>None\<close> is the \<^verbatim>\<open>TypeError\<close> of
  \<^verbatim>\<open>this.assetsFlat.indexOf\<close> while \<^verbatim>\<open>assetsFlat\<close> is still undefined (the
  constructor does not set it).  The promise of \<^verbatim>\<open>saveAddress\<close> is dropped.
\<close>

definition discover :: "engine \<Rightarrow> vout_entry \<Rightarrow> storage \<times> db \<Rightarrow> (storage \<times> db) option" where
  "discover E d sd =
     (case assetsFlat (fst sd) of
        None \<Rightarrow> None
      | Some fl \<Rightarrow>
          if vo_asset d \<in> set fl then Some sd
          else
            let newAsset = \<lparr>ad_address = vo_asset d, ad_asset = vo_asset d,
                             ad_type = ''a'', ad_assets = []\<rparr>
            in Some ((fst sd)\<lparr>assetsFlat := Some (fl @ [vo_asset d]),
                              assets := assets (fst sd) @ [newAsset]\<rparr>,
                     snd (da_saveAddress E (snd sd) (account_of newAsset))))"

fun discoverAll :: "engine \<Rightarrow> vout_entry list \<Rightarrow> storage \<times> db \<Rightarrow> (storage \<times> db) option" where
  "discoverAll E [] sd = Some sd"
| "discoverAll E (d # ds) sd =
     (case discover E d sd of None \<Rightarrow> None | Some sd' \<Rightarrow> discoverAll E ds sd')"

text \<open>
  The callback given to \<^verbatim>\<open>Promise.all\<close> has a block body without
  \<^verbatim>\<open>return\<close>: every transaction is handed to \<^verbatim>\<open>saveTransaction\<close>, whose promise
  is dropped, and \<^verbatim>\<open>Promise.all\<close> receives an array of \<^verbatim>\<open>undefined\<close>.
\<close>

fun saveTransactions :: "engine \<Rightarrow> tx list \<Rightarrow> db \<Rightarrow> db" where
  "saveTransactions E [] D = D"
| "saveTransactions E (t # ts) D = saveTransactions E ts (snd (da_saveTransaction E D t))"

definition saveBlock :: "engine \<Rightarrow> block \<Rightarrow> storage \<times> db \<Rightarrow> unit list promise \<times> storage \<times> db" where
  "saveBlock E newBlock sd =
     (case da_saveBlock E (snd sd) newBlock of
        (Rejected e, D1, b1) \<Rightarrow> (Rejected e, fst sd, D1)
      | (Pending, D1, b1) \<Rightarrow> (Pending, fst sd, D1)
      | (Resolved u, D1, b1) \<Rightarrow>
          let txs1 = map (\<lambda>t. t\<lparr>tx_blockIndex := Some (b_index b1)\<rparr>) (b_tx b1) in
          (case discoverAll E (concat (map tx_vout txs1)) (fst sd, D1) of
             None \<Rightarrow> (Rejected TypeError, fst sd, D1)
           | Some (s2, D2) \<Rightarrow>
               let txs2 = map (\<lambda>t. t\<lparr>tx_time := Some (b_time b1)\<rparr>) txs1;
                   D3 = saveTransactions E txs2 D2;
                   res = map (\<lambda>t. ()) txs2;
                   s3 = (if b_index b1 > index s2
                         then linkLoop (s2\<lparr>unlinkedBlocks := unlinkedBlocks s2 @ [b_index b1]\<rparr>)
                         else s2)
               in (Resolved res, s3, D3)))"

text \<open>A sequence of \<^verbatim>\<open>saveBlock\<close> calls, each run to completion before the next.\<close>

fun ingestAll :: "engine \<Rightarrow> block list \<Rightarrow> storage \<times> db \<Rightarrow> storage \<times> db" where
  "ingestAll E [] sd = sd"
| "ingestAll E (b # bs) sd = ingestAll E bs (snd (saveBlock E b sd))"

section \<open>Promises\<close>

text \<open>
  \<^verbatim>\<open>Promise.all\<close>: resolved with all values when every element resolves, rejected
  when an element rejects (with the first rejection in array order here; the source
  never distinguishes which), and left pending otherwise.
\<close>

fun Promise_all :: "'a promise list \<Rightarrow> 'a list promise" where
  "Promise_all [] = Resolved []"
| "Promise_all (p # ps) =
     (case p of
        Rejected e \<Rightarrow> Rejected e
      | Pending \<Rightarrow> (case Promise_all ps of Rejected e \<Rightarrow> Rejected e | _ \<Rightarrow> Pending)
      | Resolved v \<Rightarrow>
          (case Promise_all ps of
             Resolved vs \<Rightarrow> Resolved (v # vs)
           | Rejected e \<Rightarrow> Rejected e
           | Pending \<Rightarrow> Pending))"

text \<open>
  \<^verbatim>\<open>resolve\<close> called without leaving the function: the promise keeps the first
  settlement, later calls have no effect.
\<close>

definition settle :: "'a option \<Rightarrow> 'a promise \<Rightarrow> 'a promise" where
  "settle early p = (case early of Some v \<Rightarrow> Resolved v | None \<Rightarrow> p)"

section \<open>Transactions in the store (mongodb.js)\<close>

text \<open>
  \<^verbatim>\<open>findOne({ txid })\<close>.  The argument is \<open>None\<close> when the caller passes
  \<^verbatim>\<open>undefined\<close>; no stored transaction matches then, since the schema requires
  \<^verbatim>\<open>txid\<close>.
\<close>

definition da_getTX :: "engine \<Rightarrow> db \<Rightarrow> string option \<Rightarrow> tx option promise" where
  "da_getTX E D txid =
     (case err_getTX E txid of
        Some e \<Rightarrow> Rejected e
      | None \<Rightarrow>
          Resolved (case txid of
                      None \<Rightarrow> None
                    | Some h \<Rightarrow> find (\<lambda>t. tx_txid t = h) (transactions D)))"

fun update_first :: "('a \<Rightarrow> bool) \<Rightarrow> ('a \<Rightarrow> 'a) \<Rightarrow> 'a list \<Rightarrow> 'a list" where
  "update_first P f [] = []"
| "update_first P f (x # xs) = (if P x then f x # xs else x # update_first P f xs)"

text \<open>\<^verbatim>\<open>update({ txid: tx.txid }, tx)\<close> rewrites the first document with that txid.\<close>

definition da_updateTransaction :: "engine \<Rightarrow> db \<Rightarrow> tx \<Rightarrow> unit promise \<times> db" where
  "da_updateTransaction E D t =
     (case err_updateTransaction E t of
        Some e \<Rightarrow> (Rejected e, D)
      | None \<Rightarrow>
          (Resolved (),
           D\<lparr>transactions := update_first (\<lambda>x. tx_txid x = tx_txid t) (\<lambda>x. t) (transactions D)\<rparr>))"

fun vin_address :: "vin_entry \<Rightarrow> string option" where
  "vin_address (Spent v) = Some (vo_address v)"
| "vin_address (Ref h k) = None"
| "vin_address Undefined = None"

definition blockIndex_key :: "tx \<Rightarrow> int" where
  "blockIndex_key t = (case tx_blockIndex t of Some i \<Rightarrow> i | None \<Rightarrow> 0)"

text \<open>The query of \<^verbatim>\<open>getAssetListByAddress\<close>, one conjunct per line of the source.\<close>

definition touches :: "string \<Rightarrow> string \<Rightarrow> int \<Rightarrow> tx \<Rightarrow> bool" where
  "touches address assetHash startBlock t \<longleftrightarrow>
     ((\<exists>v \<in> set (tx_vout t). vo_address v = address) \<or>
      (\<exists>i \<in> set (tx_vin t). vin_address i = Some address)) \<and>
     (tx_type t = ''ContractTransaction'' \<or> tx_type t = ''InvocationTransaction'' \<or>
      tx_type t = ''ClaimTransaction'') \<and>
     (\<exists>v \<in> set (tx_vout t). vo_asset v = assetHash) \<and>
     (case tx_blockIndex t of Some i \<Rightarrow> startBlock \<le> i | None \<Rightarrow> False)"

definition da_getAssetListByAddress ::
  "engine \<Rightarrow> db \<Rightarrow> string \<Rightarrow> string \<Rightarrow> int \<Rightarrow> tx list promise" where
  "da_getAssetListByAddress E D address assetHash startBlock =
     (case err_getAssetListByAddress E address assetHash startBlock of
        Some e \<Rightarrow> Rejected e
      | None \<Rightarrow>
          Resolved (sort_key blockIndex_key
                      (filter (touches address assetHash startBlock) (transactions D))))"

section \<open>Transaction expansion (storage.js, getExpandedTX)\<close>

definition getTX :: "engine \<Rightarrow> db \<Rightarrow> string option \<Rightarrow> tx option promise" where
  "getTX E D txid = da_getTX E D txid"

text \<open>\<^verbatim>\<open>_.has(entry, 'asset')\<close> and \<^verbatim>\<open>_.map(tx.vin, 'txid')\<close>.\<close>

fun has_asset :: "vin_entry \<Rightarrow> bool" where
  "has_asset (Spent v) = True"
| "has_asset (Ref h k) = False"
| "has_asset Undefined = False"

fun txid_of :: "vin_entry \<Rightarrow> string option" where
  "txid_of (Ref h k) = Some h"
| "txid_of (Spent v) = None"
| "txid_of Undefined = None"

text \<open>
  \<^verbatim>\<open>r.vout[tx.vin[i].vout]\<close>; \<open>None\<close> is the \<^verbatim>\<open>TypeError\<close> of reading a property
  of \<^verbatim>\<open>null\<close> or \<^verbatim>\<open>undefined\<close>.  A position outside the array yields
  \<^verbatim>\<open>undefined\<close>, as does indexing with the missing \<^verbatim>\<open>vout\<close> field of a copied
  output.
\<close>

fun spent_output :: "tx option \<Rightarrow> vin_entry \<Rightarrow> vin_entry option" where
  "spent_output None entry = None"
| "spent_output (Some r) (Ref h k) =
     Some (if k < length (tx_vout r) then Spent (tx_vout r ! k) else Undefined)"
| "spent_output (Some r) (Spent v) = Some Undefined"
| "spent_output (Some r) Undefined = None"

text \<open>
  \<^verbatim>\<open>reject\<close> for a missing transaction and \<^verbatim>\<open>resolve(tx)\<close> for an expanded one
  are not followed by \<^verbatim>\<open>return\<close>, so the lookups of the referenced transactions
  always run.  The \<^verbatim>\<open>catch\<close> after \<^verbatim>\<open>Promise.all\<close> only logs, which leaves the
  promise pending unless it was settled before.
\<close>

definition getExpandedTX :: "engine \<Rightarrow> db \<Rightarrow> string \<Rightarrow> tx promise \<times> db" where
  "getExpandedTX E D txid =
     (case getTX E D (Some txid) of
        Rejected e \<Rightarrow> (Rejected e, D)
      | Pending \<Rightarrow> (Pending, D)
      | Resolved None \<Rightarrow> (Rejected NotFound, D)
      | Resolved (Some t) \<Rightarrow>
          let early = (if \<exists>entry \<in> set (tx_vin t). has_asset entry then Some t else None) in
          (case Promise_all (map (\<lambda>entry. getTX E D (txid_of entry)) (tx_vin t)) of
             Resolved res \<Rightarrow>
               (case those (map2 spent_output res (tx_vin t)) of
                  None \<Rightarrow> (settle early Pending, D)
                | Some vin' \<Rightarrow>
                    let t' = t\<lparr>tx_vin := vin'\<rparr> in
                    (settle early (Resolved t'), snd (da_updateTransaction E D t')))
           | Rejected e \<Rightarrow> (settle early Pending, D)
           | Pending \<Rightarrow> (settle early Pending, D)))"

text \<open>
  The calls \<^verbatim>\<open>Promise.all\<close> collects run one after the other here, in array order.
\<close>

fun expandAll :: "engine \<Rightarrow> string list \<Rightarrow> db \<Rightarrow> tx promise list \<times> db" where
  "expandAll E [] D = ([], D)"
| "expandAll E (h # hs) D =
     (let (p, D1) = getExpandedTX E D h; (ps, D2) = expandAll E hs D1 in (p # ps, D2))"

section \<open>Balances (mongodb.js updateBalance, storage.js getAssetBalance and getBalance)\<close>

definition da_getAddress :: "engine \<Rightarrow> db \<Rightarrow> string \<Rightarrow> account option promise" where
  "da_getAddress E D hash =
     (case err_getAddress E hash of
        Some e \<Rightarrow> Rejected e
      | None \<Rightarrow> Resolved (find (\<lambda>a. a_address a = hash) (addresses D)))"

text \<open>
  \<^verbatim>\<open>updateBalance\<close>: the positional update of the first entry for the asset, and
  the \<^verbatim>\<open>$push\<close> of a new entry when no document matched; an error of the
  \<^verbatim>\<open>$push\<close> is only logged.  After an error of the first update the promise is
  rejected; what the callback does next with the missing \<^verbatim>\<open>res\<close> is not modelled.
\<close>

definition da_updateBalance ::
  "engine \<Rightarrow> db \<Rightarrow> string \<Rightarrow> string \<Rightarrow> rat \<Rightarrow> int \<Rightarrow> unit promise \<times> db" where
  "da_updateBalance E D addressHash assetHash balance idx =
     (case err_updateBalance E addressHash assetHash of
        Some e \<Rightarrow> (Rejected e, D)
      | None \<Rightarrow>
          if \<exists>a \<in> set (addresses D).
               a_address a = addressHash \<and> (\<exists>b \<in> set (a_assets a). be_asset b = assetHash)
          then
            (Resolved (),
             D\<lparr>addresses :=
                 update_first
                   (\<lambda>a. a_address a = addressHash \<and> (\<exists>b \<in> set (a_assets a). be_asset b = assetHash))
                   (\<lambda>a. a\<lparr>a_assets :=
                            update_first (\<lambda>b. be_asset b = assetHash)
                              (\<lambda>b. b\<lparr>be_balance := balance, be_index := idx\<rparr>) (a_assets a)\<rparr>)
                   (addresses D)\<rparr>)
          else
            let result = \<lparr>be_asset = assetHash, be_balance = balance, be_index = idx,
                          be_type = Some ''a''\<rparr>
            in (case err_pushBalance E addressHash assetHash of
                  Some e \<Rightarrow> (Resolved (), D)
                | None \<Rightarrow>
                    (Resolved (),
                     D\<lparr>addresses :=
                         update_first (\<lambda>a. a_address a = addressHash)
                           (\<lambda>a. a\<lparr>a_assets := a_assets a @ [result]\<rparr>) (addresses D)\<rparr>)))"

text \<open>
  The balancing loops of \<^verbatim>\<open>getAssetBalance\<close>.  Reading \<^verbatim>\<open>input.address\<close> of an
  \<^verbatim>\<open>undefined\<close> input throws (\<open>None\<close>).
\<close>

definition add_vout :: "string \<Rightarrow> string \<Rightarrow> vout_entry \<Rightarrow> rat \<Rightarrow> rat" where
  "add_vout address asset output balance =
     (if vo_address output = address \<and> vo_asset output = asset
      then balance + vo_value output else balance)"

fun sub_vin :: "string \<Rightarrow> string \<Rightarrow> vin_entry \<Rightarrow> rat \<Rightarrow> rat option" where
  "sub_vin address asset (Spent v) balance =
     Some (if vo_address v = address \<and> vo_asset v = asset then balance - vo_value v else balance)"
| "sub_vin address asset (Ref h k) balance = Some balance"
| "sub_vin address asset Undefined balance = None"

fun sub_vins :: "string \<Rightarrow> string \<Rightarrow> vin_entry list \<Rightarrow> rat \<Rightarrow> rat option" where
  "sub_vins address asset [] balance = Some balance"
| "sub_vins address asset (i # is) balance =
     (case sub_vin address asset i balance of
        None \<Rightarrow> None
      | Some balance' \<Rightarrow> sub_vins address asset is balance')"

fun balancing :: "string \<Rightarrow> string \<Rightarrow> tx list \<Rightarrow> rat \<Rightarrow> rat option" where
  "balancing address asset [] balance = Some balance"
| "balancing address asset (r # rs) balance =
     (case sub_vins address asset (tx_vin r) (fold (add_vout address asset) (tx_vout r) balance) of
        None \<Rightarrow> None
      | Some balance' \<Rightarrow> balancing address asset rs balance')"

text \<open>
  \<^verbatim>\<open>getAssetBalance (address, asset, startBlock = 0, balance = 0)\<close>.  The promise of
  \<^verbatim>\<open>updateBalance\<close> has no rejection handler.
\<close>

definition getAssetBalance ::
  "engine \<Rightarrow> storage \<Rightarrow> db \<Rightarrow> string \<Rightarrow> string \<Rightarrow> int \<Rightarrow> rat \<Rightarrow> balance_entry promise \<times> db" where
  "getAssetBalance E s D address asset startBlock balance =
     (case da_getAssetListByAddress E D address asset startBlock of
        Rejected e \<Rightarrow> (Rejected e, D)
      | Pending \<Rightarrow> (Pending, D)
      | Resolved res \<Rightarrow>
          let (ps, D1) = expandAll E (map tx_txid res) D in
          (case Promise_all ps of
             Rejected e \<Rightarrow> (Rejected e, D1)
           | Pending \<Rightarrow> (Pending, D1)
           | Resolved rs \<Rightarrow>
               (case balancing address asset rs balance of
                  None \<Rightarrow> (Rejected TypeError, D1)
                | Some balance' \<Rightarrow>
                    let result = \<lparr>be_asset = asset, be_balance = balance', be_index = index s,
                                  be_type = Some ''a''\<rparr>
                    in (case da_updateBalance E D1 address asset balance' (index s) of
                          (Resolved u, D2) \<Rightarrow> (Resolved result, D2)
                        | (Rejected e, D2) \<Rightarrow> (Pending, D2)
                        | (Pending, D2) \<Rightarrow> (Pending, D2)))))"

text \<open>As for \<open>expandAll\<close>, the recomputations run one after the other.\<close>

fun recomputeAll ::
  "engine \<Rightarrow> storage \<Rightarrow> string \<Rightarrow> balance_entry list \<Rightarrow> db \<Rightarrow> balance_entry promise list \<times> db" where
  "recomputeAll E s address [] D = ([], D)"
| "recomputeAll E s address (asset # rest) D =
     (let (p, D1) = getAssetBalance E s D address (be_asset asset) (be_index asset + 1)
                      (be_balance asset);
          (ps, D2) = recomputeAll E s address rest D1
      in (p # ps, D2))"

record balances =
  bal_address :: string
  bal_assets :: "balance_entry list"

text \<open>
  The entries \<^verbatim>\<open>getBalance\<close> recomputes (\<^verbatim>\<open>parts[0]\<close> after the scan of the
  registry) and the entries it returns as they are (\<^verbatim>\<open>parts[1]\<close>).
\<close>

definition stale_part :: "storage \<Rightarrow> account \<Rightarrow> int \<Rightarrow> balance_entry list" where
  "stale_part s res blockAge =
     (let parts = partition (\<lambda>asset. index s - be_index asset \<ge> blockAge) (a_assets res) in
      if length (a_assets res) \<noteq> length (assets s)
      then
        (let included = map be_asset (a_assets res) in
         fst parts @
         map (\<lambda>asset. \<lparr>be_asset = ad_asset asset, be_balance = 0, be_index = - 1, be_type = None\<rparr>)
           (filter (\<lambda>asset. ad_asset asset \<notin> set included) (assets s)))
      else fst parts)"

definition fresh_part :: "storage \<Rightarrow> account \<Rightarrow> int \<Rightarrow> balance_entry list" where
  "fresh_part s res blockAge =
     snd (partition (\<lambda>asset. index s - be_index asset \<ge> blockAge) (a_assets res))"

text \<open>
  \<^verbatim>\<open>getBalance (address, assets = this.assets, blockAge = 1)\<close>; an argument that
  the caller leaves out is \<open>None\<close>.  The parameter \<^verbatim>\<open>assets\<close> is only logged.  The
  promise of the retry has no rejection handler, and the \<^verbatim>\<open>catch\<close> after
  \<^verbatim>\<open>Promise.all\<close> only logs.
\<close>

function getBalance ::
  "engine \<Rightarrow> storage \<Rightarrow> db \<Rightarrow> string \<Rightarrow> asset_def list option \<Rightarrow> int option
     \<Rightarrow> balances promise \<times> db" where
  "getBalance E s D address assets_arg blockAge_arg =
     (let wanted = (case assets_arg of None \<Rightarrow> assets s | Some a \<Rightarrow> a);
          blockAge = (case blockAge_arg of None \<Rightarrow> 1 | Some n \<Rightarrow> n)
      in
      case da_getAddress E D address of
        Rejected e \<Rightarrow> (Rejected e, D)
      | Pending \<Rightarrow> (Pending, D)
      | Resolved None \<Rightarrow>
          (case da_saveAddress E D
                  \<lparr>a_address = address, a_asset = None, a_type = ''c'', a_assets = []\<rparr> of
             (Rejected e, D1) \<Rightarrow> (Rejected e, D1)
           | (Pending, D1) \<Rightarrow> (Pending, D1)
           | (Resolved saved, D1) \<Rightarrow>
               (case getBalance E s D1 address None None of
                  (Resolved r, D2) \<Rightarrow> (Resolved r, D2)
                | (Rejected e, D2) \<Rightarrow> (Pending, D2)
                | (Pending, D2) \<Rightarrow> (Pending, D2)))
      | Resolved (Some res) \<Rightarrow>
          let (ps, D1) = recomputeAll E s address (stale_part s res blockAge) D in
          (case Promise_all ps of
             Resolved rs \<Rightarrow>
               (Resolved \<lparr>bal_address = address, bal_assets = fresh_part s res blockAge @ rs\<rparr>, D1)
           | Rejected e \<Rightarrow> (Pending, D1)
           | Pending \<Rightarrow> (Pending, D1)))"
  by pat_completeness auto
termination
  apply (relation "measure (\<lambda>(E, s, D, address, assets_arg, blockAge_arg).
                   if \<exists>a \<in> set (addresses D). a_address a = address then 0 else 1)")
   apply simp
  apply (auto simp: da_getAddress_def da_saveAddress_def find_None_iff split: option.splits)
  done

declare getBalance.simps [simp del]

section \<open>Chain height and integrity scan\<close>

text \<open>
  \<^verbatim>\<open>getBlockCount\<close> of the store: the document with the highest index
  (\<^verbatim>\<open>findOne\<close> after a descending sort), \<^verbatim>\<open>{ index: -1 }\<close> when there is none,
  plus one.
\<close>

definition da_getBlockCount :: "engine \<Rightarrow> db \<Rightarrow> int promise" where
  "da_getBlockCount E D =
     (case err_getBlockCount E of
        Some e \<Rightarrow> Rejected e
      | None \<Rightarrow>
          Resolved ((case rev (sort_key b_index (blocks D)) of
                       [] \<Rightarrow> - 1
                     | res # others \<Rightarrow> b_index res) + 1))"

definition getBlockCount :: "engine \<Rightarrow> storage \<Rightarrow> db \<Rightarrow> int promise \<times> storage" where
  "getBlockCount E s D =
     (case da_getBlockCount E D of
        Resolved res \<Rightarrow> (Resolved res, s\<lparr>index := res - 1, blockHeight := res\<rparr>)
      | Rejected e \<Rightarrow> (Rejected e, s)
      | Pending \<Rightarrow> (Pending, s))"

text \<open>
  The \<^verbatim>\<open>while (true)\<close> of the \<^verbatim>\<open>data\<close> handler of \<^verbatim>\<open>verifyBlocks\<close>; it has no
  exit when the pointer is already at or past the block's index, which is the value
  \<open>None\<close>.
\<close>

partial_function (option) scanGap :: "int \<Rightarrow> int \<Rightarrow> int list \<Rightarrow> (int \<times> int list) option" where
  "scanGap d pointer missing =
     (if d = pointer + 1 then Some (pointer + 1, missing)
      else scanGap d (pointer + 1) (missing @ [pointer + 1]))"

fun scanStream :: "int list \<Rightarrow> int \<Rightarrow> int list \<Rightarrow> int list option" where
  "scanStream [] pointer missing = Some missing"
| "scanStream (d # ds) pointer missing =
     (case scanGap d pointer missing of
        None \<Rightarrow> None
      | Some (pointer', missing') \<Rightarrow> scanStream ds pointer' missing')"

definition da_verifyBlocks :: "db \<Rightarrow> int \<Rightarrow> int \<Rightarrow> int list promise" where
  "da_verifyBlocks D start end =
     (let stream = map b_index
            (sort_key b_index (filter (\<lambda>b. start \<le> b_index b \<and> b_index b \<le> end) (blocks D)))
      in case scanStream stream (start - 1) [] of
           None \<Rightarrow> Pending
         | Some missing \<Rightarrow> Resolved missing)"

text \<open>\<^verbatim>\<open>verifyBlocks (start = 0, end = this.index)\<close> of \<^verbatim>\<open>Storage\<close>.\<close>

definition verifyBlocks :: "storage \<Rightarrow> db \<Rightarrow> int option \<Rightarrow> int option \<Rightarrow> int list promise" where
  "verifyBlocks s D start_arg end_arg =
     da_verifyBlocks D (case start_arg of None \<Rightarrow> 0 | Some a \<Rightarrow> a)
       (case end_arg of None \<Rightarrow> index s | Some b \<Rightarrow> b)"

section \<open>Notions used in the statements\<close>

text \<open>The indices of the blocks handed to \<^verbatim>\<open>saveBlock\<close> so far.\<close>

definition ingested :: "block list \<Rightarrow> int set" where
  "ingested bs = b_index ` set bs"

text \<open>
  The invariant of the chain position with respect to the set \<open>S\<close> of ingested
  indices: everything up to \<open>index\<close> is ingested, and \<open>unlinkedBlocks\<close> holds, once
  each, the ingested indices above \<open>index\<close>.
\<close>

definition linked :: "int set \<Rightarrow> storage \<Rightarrow> bool" where
  "linked S s \<longleftrightarrow>
     - 1 \<le> index s \<and> (\<forall>i. 0 \<le> i \<and> i \<le> index s \<longrightarrow> i \<in> S) \<and>
     set (unlinkedBlocks s) = {i \<in> S. index s < i} \<and> distinct (unlinkedBlocks s)"





text \<open>The block indices in the store, and those of them inside a range.\<close>

definition stored :: "db \<Rightarrow> int set" where
  "stored D = b_index ` set (blocks D)"

definition in_range :: "db \<Rightarrow> int \<Rightarrow> int \<Rightarrow> int set" where
  "in_range D start end = {i \<in> stored D. start \<le> i \<and> i \<le> end}"

section \<open>Sample data\<close>

text \<open>
  A store on which every operation succeeds, and stores on which one kind of
  operation fails.
\<close>

definition E0 :: engine where
  "E0 = \<lparr>err_saveBlock = (\<lambda>_. None), err_saveTransaction = (\<lambda>_. None),
     err_updateTransaction = (\<lambda>_. None), err_getTX = (\<lambda>_. None),
     err_getAddress = (\<lambda>_. None), err_saveAddress = (\<lambda>_. None),
     err_getAssetListByAddress = (\<lambda>_ _ _. None), err_updateBalance = (\<lambda>_ _. None),
     err_pushBalance = (\<lambda>_ _. None), err_getBlockCount = None, normalize = (\<lambda>h. h)\<rparr>"

definition io_error :: error where
  "io_error = PersistenceError ''write failed''"

definition E_txfail :: engine where
  "E_txfail = E0\<lparr>err_saveTransaction := (\<lambda>_. Some io_error)\<rparr>"

definition E_fetchfail :: engine where
  "E_fetchfail = E0\<lparr>err_getTX := (\<lambda>h. if h = Some ''a'' then Some io_error else None)\<rparr>"

definition E_writefail :: engine where
  "E_writefail = E0\<lparr>err_updateTransaction := (\<lambda>_. Some io_error)\<rparr>"

text \<open>
  The \<^verbatim>\<open>Storage\<close> object as constructed, with the registry loaded and empty; the
  same at block \<open>100\<close>; and at block \<open>100\<close> with two assets in the registry.
\<close>

definition s_init :: storage where
  "s_init = \<lparr>index = - 1, blockHeight = 0, unlinkedBlocks = [], assets = [], assetsFlat = Some []\<rparr>"

definition s_100 :: storage where
  "s_100 = \<lparr>index = 100, blockHeight = 101, unlinkedBlocks = [], assets = [], assetsFlat = Some []\<rparr>"

definition neo_def :: asset_def where
  "neo_def = \<lparr>ad_address = ''neo'', ad_asset = ''neo'', ad_type = ''a'', ad_assets = []\<rparr>"

definition gas_def :: asset_def where
  "gas_def = \<lparr>ad_address = ''gas'', ad_asset = ''gas'', ad_type = ''a'', ad_assets = []\<rparr>"

definition s_reg :: storage where
  "s_reg = s_100\<lparr>assets := [neo_def, gas_def], assetsFlat := Some [''neo'', ''gas'']\<rparr>"

text \<open>
  Transactions: \<open>tx_a\<close> pays \<open>5\<close> to \<open>alice\<close>; \<open>tx_b\<close> spends that output,
  paying \<open>3\<close> to \<open>bob\<close> and \<open>2\<close> back to \<open>alice\<close>; the input of \<open>tx_c\<close> names
  an output position that \<open>tx_a\<close> does not have.
\<close>

definition out_alice :: vout_entry where
  "out_alice = \<lparr>vo_address = ''alice'', vo_asset = ''neo'', vo_value = 5\<rparr>"

definition out_bob :: vout_entry where
  "out_bob = \<lparr>vo_address = ''bob'', vo_asset = ''neo'', vo_value = 3\<rparr>"

definition out_change :: vout_entry where
  "out_change = \<lparr>vo_address = ''alice'', vo_asset = ''neo'', vo_value = 2\<rparr>"

definition tx_a :: tx where
  "tx_a = \<lparr>tx_txid = ''a'', tx_type = ''ContractTransaction'', tx_vin = [],
     tx_vout = [out_alice], tx_blockIndex = Some 0, tx_time = Some 7\<rparr>"

definition tx_b :: tx where
  "tx_b = \<lparr>tx_txid = ''b'', tx_type = ''ContractTransaction'', tx_vin = [Ref ''a'' 0],
     tx_vout = [out_bob, out_change], tx_blockIndex = Some 1, tx_time = Some 8\<rparr>"

definition tx_c :: tx where
  "tx_c = \<lparr>tx_txid = ''c'', tx_type = ''ContractTransaction'', tx_vin = [Ref ''a'' 3],
     tx_vout = [], tx_blockIndex = Some 1, tx_time = Some 8\<rparr>"

text \<open>\<open>tx_b\<close> after expansion.\<close>

definition tx_b_expanded :: tx where
  "tx_b_expanded = tx_b\<lparr>tx_vin := [Spent out_alice]\<rparr>"

text \<open>Blocks: without transactions, and block \<open>0\<close> carrying \<open>tx_a\<close> as mined.\<close>

definition blk :: "int \<Rightarrow> block" where
  "blk i = \<lparr>b_index = i, b_hash = ''h'', b_previousblockhash = ''p'', b_merkleroot = ''m'',
     b_time = 7, b_tx = []\<rparr>"

definition blk_a :: block where
  "blk_a = (blk 0)\<lparr>b_tx := [tx_a\<lparr>tx_blockIndex := None, tx_time := None\<rparr>]\<rparr>"

text \<open>Stores.\<close>

definition D_empty :: db where
  "D_empty = \<lparr>blocks = [], transactions = [], addresses = []\<rparr>"

definition D_txs :: db where
  "D_txs = \<lparr>blocks = [], transactions = [tx_a, tx_b, tx_c], addresses = []\<rparr>"

definition D_expanded :: db where
  "D_expanded = \<lparr>blocks = [], transactions = [tx_a, tx_b_expanded, tx_c], addresses = []\<rparr>"

definition D_gap :: db where
  "D_gap = \<lparr>blocks = [blk 3, blk 0, blk 5, blk 1, blk 4], transactions = [], addresses = []\<rparr>"

definition D_two :: db where
  "D_two = \<lparr>blocks = [blk 0, blk 2], transactions = [], addresses = []\<rparr>"

definition D_three :: db where
  "D_three = \<lparr>blocks = [blk 1, blk 0, blk 2], transactions = [], addresses = []\<rparr>"

text \<open>
  Accounts: \<open>alice\<close> with a balance entry of index \<open>95\<close> and one of index \<open>89\<close>;
  \<open>dave\<close> and \<open>bob\<close> without entries.
\<close>

definition entry_95 :: balance_entry where
  "entry_95 = \<lparr>be_asset = ''neo'', be_balance = 7, be_index = 95, be_type = Some ''a''\<rparr>"

definition entry_89 :: balance_entry where
  "entry_89 = \<lparr>be_asset = ''gas'', be_balance = 1, be_index = 89, be_type = Some ''a''\<rparr>"

definition acc_alice :: account where
  "acc_alice = \<lparr>a_address = ''alice'', a_asset = None, a_type = ''c'',
     a_assets = [entry_95, entry_89]\<rparr>"

definition acc_dave :: account where
  "acc_dave = \<lparr>a_address = ''dave'', a_asset = None, a_type = ''c'', a_assets = []\<rparr>"

definition acc_bob :: account where
  "acc_bob = \<lparr>a_address = ''bob'', a_asset = None, a_type = ''c'', a_assets = []\<rparr>"

definition D_alice :: db where
  "D_alice = D_expanded\<lparr>addresses := [acc_alice]\<rparr>"

definition D_dave :: db where
  "D_dave = D_expanded\<lparr>addresses := [acc_dave]\<rparr>"

text \<open>A store that holds two blocks of index \<open>0\<close>.\<close>

definition D_dup :: db where
  "D_dup = \<lparr>blocks = [blk 0, blk 0], transactions = [], addresses = []\<rparr>"

section \<open>Properties\<close>

text \<open>The equations that unfold the sample data and the operations of the store.\<close>

lemmas sample_defs = E0_def E_txfail_def E_fetchfail_def E_writefail_def io_error_def
  s_init_def s_100_def s_reg_def neo_def_def gas_def_def
  out_alice_def out_bob_def out_change_def tx_a_def tx_b_def tx_c_def tx_b_expanded_def
  blk_def blk_a_def D_empty_def D_txs_def D_expanded_def
  entry_95_def entry_89_def acc_alice_def acc_dave_def acc_bob_def D_alice_def D_dave_def

lemmas store_defs = da_saveBlock_def da_saveTransaction_def da_saveAddress_def delintBlock_def
  da_getTX_def getTX_def da_updateTransaction_def da_getAddress_def da_updateBalance_def
  da_getAssetListByAddress_def da_getBlockCount_def

subsection \<open>Linking blocks that arrive out of order\<close>

lemma linkLoop_linked:
  "linked S s \<Longrightarrow> linked S (linkLoop s) \<and> index (linkLoop s) + 1 \<notin> S
     \<and> assets (linkLoop s) = assets s \<and> assetsFlat (linkLoop s) = assetsFlat s
     \<and> blockHeight (linkLoop s) - index (linkLoop s) = blockHeight s - index s"
proof (induction s rule: linkLoop.induct)
  case (1 s)
  show ?case
  proof (cases "index s + 1 \<in> set (unlinkedBlocks s)")
    case True
    let ?s' = "s\<lparr>unlinkedBlocks := remove1 (index s + 1) (unlinkedBlocks s),
                        index := index s + 1,
                        blockHeight := blockHeight s + 1\<rparr>"
    have mem: "index s + 1 \<in> S"
      using "1.prems" True unfolding linked_def by auto
    have low: "i \<in> S" if "0 \<le> i" "i \<le> index s + 1" for i
    proof (cases "i = index s + 1")
      case True
      then show ?thesis using mem by simp
    next
      case False
      with that have "i \<le> index s" by arith
      with that(1) "1.prems" show ?thesis unfolding linked_def by blast
    qed
    have "linked S ?s'"
      using "1.prems" True low unfolding linked_def by auto
    moreover have eq: "linkLoop s = linkLoop ?s'"
      using True by (subst linkLoop.simps) simp
    ultimately show ?thesis
      using "1.IH"[OF True] by simp
  next
    case False
    then have eq: "linkLoop s = s" by (subst linkLoop.simps) simp
    from False "1.prems" show ?thesis unfolding eq linked_def by auto
  qed
qed

lemma discover_chain:
  "assetsFlat (fst sd) \<noteq> None \<Longrightarrow>
   \<exists>sd'. discover E d sd = Some sd' \<and> assetsFlat (fst sd') \<noteq> None \<and>
     index (fst sd') = index (fst sd) \<and> blockHeight (fst sd') = blockHeight (fst sd) \<and>
     unlinkedBlocks (fst sd') = unlinkedBlocks (fst sd)"
  by (cases sd) (auto simp: discover_def Let_def)

lemma discoverAll_chain:
  "assetsFlat (fst sd) \<noteq> None \<Longrightarrow>
   \<exists>sd'. discoverAll E ds sd = Some sd' \<and> assetsFlat (fst sd') \<noteq> None \<and>
     index (fst sd') = index (fst sd) \<and> blockHeight (fst sd') = blockHeight (fst sd) \<and>
     unlinkedBlocks (fst sd') = unlinkedBlocks (fst sd)"
proof (induction ds arbitrary: sd)
  case Nil
  then show ?case by simp
next
  case (Cons d ds)
  from discover_chain[OF Cons.prems, of E d] obtain sd1 where
    d1: "discover E d sd = Some sd1" and a1: "assetsFlat (fst sd1) \<noteq> None"
    and i1: "index (fst sd1) = index (fst sd)" "blockHeight (fst sd1) = blockHeight (fst sd)"
      "unlinkedBlocks (fst sd1) = unlinkedBlocks (fst sd)"
    by blast
  from Cons.IH[OF a1] d1 i1 show ?case by simp
qed

lemma saveBlock_step:
  assumes ok: "\<forall>b. err_saveBlock E b = None"
    and fl: "assetsFlat s \<noteq> None"
    and inv: "linked S s"
    and new: "b_index b \<notin> S" and nn: "0 \<le> b_index b"
    and ht: "blockHeight s = index s + 1"
  shows "\<exists>res s' D'. saveBlock E b (s, D) = (Resolved res, s', D') \<and>
           assetsFlat s' \<noteq> None \<and> linked (insert (b_index b) S) s' \<and>
           index s' + 1 \<notin> insert (b_index b) S \<and> blockHeight s' = index s' + 1"
proof -
  let ?b1 = "delintBlock E b"
  have bi: "b_index ?b1 = b_index b" by (simp add: delintBlock_def)
  let ?D1 = "D\<lparr>blocks := blocks D @ [?b1]\<rparr>"
  have da: "da_saveBlock E D b = (Resolved (), ?D1, ?b1)"
    using ok by (simp add: da_saveBlock_def Let_def)
  let ?txs1 = "map (\<lambda>t. t\<lparr>tx_blockIndex := Some (b_index ?b1)\<rparr>) (b_tx ?b1)"
  from discoverAll_chain[of "(s, ?D1)" E "concat (map tx_vout ?txs1)"] fl
  obtain s2 D2 where
    dis: "discoverAll E (concat (map tx_vout ?txs1)) (s, ?D1) = Some (s2, D2)"
    and a2: "assetsFlat s2 \<noteq> None"
    and i2: "index s2 = index s" "blockHeight s2 = blockHeight s" "unlinkedBlocks s2 = unlinkedBlocks s"
    by auto
  have gt: "index s2 < b_index b"
  proof (rule ccontr)
    assume "\<not> index s2 < b_index b"
    then have "b_index b \<le> index s" using i2 by simp
    with nn inv have "b_index b \<in> S" unfolding linked_def by blast
    with new show False by simp
  qed
  let ?s2' = "s2\<lparr>unlinkedBlocks := unlinkedBlocks s2 @ [b_index b]\<rparr>"
  have l2: "linked (insert (b_index b) S) ?s2'"
    using inv i2 gt new unfolding linked_def by auto
  from linkLoop_linked[OF l2] have
    l3: "linked (insert (b_index b) S) (linkLoop ?s2')"
    and n3: "index (linkLoop ?s2') + 1 \<notin> insert (b_index b) S"
    and a3: "assetsFlat (linkLoop ?s2') = assetsFlat ?s2'"
    and h3: "blockHeight (linkLoop ?s2') - index (linkLoop ?s2') = blockHeight ?s2' - index ?s2'"
    by blast+
  have h4: "blockHeight (linkLoop ?s2') = index (linkLoop ?s2') + 1"
    using h3 i2 ht by simp
  have "saveBlock E b (s, D) =
          (Resolved (map (\<lambda>t. ()) (map (\<lambda>t. t\<lparr>tx_time := Some (b_time ?b1)\<rparr>) ?txs1)), linkLoop ?s2',
           saveTransactions E (map (\<lambda>t. t\<lparr>tx_time := Some (b_time ?b1)\<rparr>) ?txs1) D2)"
    unfolding saveBlock_def using da dis gt by (simp add: Let_def bi)
  with l3 n3 a3 a2 h4 show ?thesis by simp
qed

lemma ingestAll_append:
  "ingestAll E (bs @ cs) sd = ingestAll E cs (ingestAll E bs sd)"
  by (induction bs arbitrary: sd) auto

lemma ingestAll_linked:
  assumes ok: "\<forall>b. err_saveBlock E b = None"
    and fl: "assetsFlat s0 \<noteq> None"
    and i0: "index s0 = - 1" and u0: "unlinkedBlocks s0 = []" and h0: "blockHeight s0 = 0"
  shows "distinct (map b_index bs) \<Longrightarrow> \<forall>b \<in> set bs. 0 \<le> b_index b \<Longrightarrow>
         (let s = fst (ingestAll E bs (s0, D0)) in
            assetsFlat s \<noteq> None \<and> linked (ingested bs) s \<and> index s + 1 \<notin> ingested bs
            \<and> blockHeight s = index s + 1)"
proof (induction bs rule: rev_induct)
  case Nil
  then show ?case using fl i0 u0 h0 by (simp add: linked_def ingested_def)
next
  case (snoc b bs)
  let ?sd = "ingestAll E bs (s0, D0)"
  from snoc have IH: "assetsFlat (fst ?sd) \<noteq> None" "linked (ingested bs) (fst ?sd)"
    "blockHeight (fst ?sd) = index (fst ?sd) + 1"
    by (simp_all add: Let_def)
  from snoc.prems have new: "b_index b \<notin> ingested bs" and nn: "0 \<le> b_index b"
    by (auto simp: ingested_def)
  from saveBlock_step[OF ok IH(1) IH(2) new nn IH(3), of "snd ?sd"]
  obtain res s' D' where
    sb: "saveBlock E b ?sd = (Resolved res, s', D')"
    and r: "assetsFlat s' \<noteq> None" "linked (insert (b_index b) (ingested bs)) s'"
      "index s' + 1 \<notin> insert (b_index b) (ingested bs)" "blockHeight s' = index s' + 1"
    by auto
  have ing: "ingested (bs @ [b]) = insert (b_index b) (ingested bs)"
    by (auto simp: ingested_def)
  show ?case using r sb by (simp add: ingestAll_append Let_def ing)
qed

text \<open>
  Claim C1.  Blocks whose indices are a permutation of \<open>0..N\<close> are handed to
  \<^verbatim>\<open>saveBlock\<close> one after the other, starting from \<open>index = -1\<close>,
  \<open>blockHeight = 0\<close> and no unlinked blocks, with the registry loaded and no block
  save failing.  After the last call \<open>index = N\<close>, \<open>blockHeight = N + 1\<close> and
  \<open>unlinkedBlocks\<close> is empty.  After every prefix of the calls, every index from
  \<open>0\<close> to \<open>index\<close> has been ingested and \<open>index + 1\<close> has not, so
  \<open>index\<close> is the largest \<open>n\<close> with all of \<open>0..n\<close> ingested (\<open>-1\<close> when
  block \<open>0\<close> is still missing).
\<close>

theorem ingest_any_order:
  assumes "\<forall>b. err_saveBlock E b = None"
    and "assetsFlat s0 \<noteq> None"
    and "index s0 = - 1" and "unlinkedBlocks s0 = []" and "blockHeight s0 = 0"
    and "distinct (map b_index bs)" and "ingested bs = {0..N}" and "0 \<le> N"
  shows "index (fst (ingestAll E bs (s0, D0))) = N \<and>
         blockHeight (fst (ingestAll E bs (s0, D0))) = N + 1 \<and>
         unlinkedBlocks (fst (ingestAll E bs (s0, D0))) = [] \<and>
         (\<forall>k \<le> length bs.
            (\<forall>i. 0 \<le> i \<and> i \<le> index (fst (ingestAll E (take k bs) (s0, D0)))
                   \<longrightarrow> i \<in> ingested (take k bs)) \<and>
            index (fst (ingestAll E (take k bs) (s0, D0))) + 1 \<notin> ingested (take k bs) \<and>
            - 1 \<le> index (fst (ingestAll E (take k bs) (s0, D0))))"
proof -
  have nn: "\<forall>b \<in> set bs. 0 \<le> b_index b"
    using assms(7) by (auto simp: ingested_def)
  let ?s = "fst (ingestAll E bs (s0, D0))"
  from ingestAll_linked[OF assms(1-5) assms(6) nn, of D0]
  have L: "linked {0..N} ?s" and n: "index ?s + 1 \<notin> {0..N}" and h: "blockHeight ?s = index ?s + 1"
    using assms(7) by (simp_all add: Let_def)
  have lo: "- 1 \<le> index ?s" using L by (simp add: linked_def)
  have ge: "N \<le> index ?s" using n lo by auto
  have le: "index ?s \<le> N"
  proof (cases "0 \<le> index ?s")
    case True
    with L have "index ?s \<in> {0..N}" unfolding linked_def by blast
    then show ?thesis by simp
  next
    case False
    with lo have "index ?s = - 1" by simp
    with assms(8) show ?thesis by simp
  qed
  have idx: "index ?s = N" using ge le by simp
  have "set (unlinkedBlocks ?s) = {}" using L idx unfolding linked_def by auto
  then have unl: "unlinkedBlocks ?s = []" by simp
  have pre: "(\<forall>i. 0 \<le> i \<and> i \<le> index (fst (ingestAll E (take k bs) (s0, D0)))
                   \<longrightarrow> i \<in> ingested (take k bs)) \<and>
            index (fst (ingestAll E (take k bs) (s0, D0))) + 1 \<notin> ingested (take k bs) \<and>
            - 1 \<le> index (fst (ingestAll E (take k bs) (s0, D0)))" for k
  proof -
    have d: "distinct (map b_index (take k bs))"
      using assms(6) distinct_take[of "map b_index bs" k] by (simp add: take_map)
    have p: "\<forall>b \<in> set (take k bs). 0 \<le> b_index b"
      using nn by (meson in_set_takeD)
    from ingestAll_linked[OF assms(1-5) d p, of D0] show ?thesis
      by (simp add: Let_def linked_def)
  qed
  show ?thesis using idx unl h pre by simp
qed

lemma ingest_example_0_2_1:
  "index (fst (ingestAll E0 [blk 0] (s_init, D_empty))) = 0"
  "fst (ingestAll E0 [blk 0, blk 2] (s_init, D_empty)) = s_init\<lparr>index := 0, blockHeight := 1, unlinkedBlocks := [2]\<rparr>"
  "fst (ingestAll E0 [blk 0, blk 2, blk 1] (s_init, D_empty)) = s_init\<lparr>index := 2, blockHeight := 3, unlinkedBlocks := []\<rparr>"
  by (simp_all add: saveBlock_def da_saveBlock_def delintBlock_def E0_def s_init_def D_empty_def blk_def Let_def linkLoop.simps)

text \<open>The delivery order \<open>0, 2, 1\<close> of the specification, for \<open>N = 2\<close>.\<close>

theorem ingest_any_order_witness:
  "index (fst (ingestAll E0 [blk 0, blk 2, blk 1] (s_init, D_empty))) = 2 \<and>
   unlinkedBlocks (fst (ingestAll E0 [blk 0, blk 2, blk 1] (s_init, D_empty))) = [] \<and>
   index (fst (ingestAll E0 (take 2 [blk 0, blk 2, blk 1]) (s_init, D_empty))) + 1 \<notin> ingested (take 2 [blk 0, blk 2, blk 1])"
proof -
  have a: "\<forall>b. err_saveBlock E0 b = None" by (simp add: E0_def)
  have b: "assetsFlat s_init \<noteq> None" "index s_init = - 1" "unlinkedBlocks s_init = []" "blockHeight s_init = 0"
    by (simp_all add: s_init_def)
  have c: "distinct (map b_index [blk 0, blk 2, blk 1])" by (simp add: blk_def)
  have d: "ingested [blk 0, blk 2, blk 1] = {0..2}" by (auto simp: ingested_def blk_def)
  have e: "(0::int) \<le> 2" by simp
  note t = ingest_any_order[OF a b c d e, of D_empty]
  from t have "index (fst (ingestAll E0 [blk 0, blk 2, blk 1] (s_init, D_empty))) = 2"
    and "unlinkedBlocks (fst (ingestAll E0 [blk 0, blk 2, blk 1] (s_init, D_empty))) = []"
    by blast+
  moreover from t have "\<forall>k \<le> length [blk 0, blk 2, blk 1].
     index (fst (ingestAll E0 (take k [blk 0, blk 2, blk 1]) (s_init, D_empty))) + 1
       \<notin> ingested (take k [blk 0, blk 2, blk 1])"
    by blast
  then have "index (fst (ingestAll E0 (take 2 [blk 0, blk 2, blk 1]) (s_init, D_empty))) + 1
       \<notin> ingested (take 2 [blk 0, blk 2, blk 1])"
    by (rule allE[of _ 2]) simp
  ultimately show ?thesis by blast
qed

subsection \<open>Failures while a block is ingested\<close>

text \<open>
  Claim C2, evaluated where it fails.  Block \<open>0\<close> carries one transaction and the
  store refuses every transaction save.  \<^verbatim>\<open>saveBlock\<close> resolves all the same, the
  chain position advances to \<open>index = 0\<close>, \<open>blockHeight = 1\<close>, and the transaction
  is not in the store.
\<close>

theorem saveBlock_ignores_transaction_failure:
  "fst (saveBlock E_txfail blk_a (s_init, D_empty)) = Resolved [()] \<and>
   index (fst (snd (saveBlock E_txfail blk_a (s_init, D_empty)))) = 0 \<and>
   blockHeight (fst (snd (saveBlock E_txfail blk_a (s_init, D_empty)))) = 1 \<and>
   transactions (snd (snd (saveBlock E_txfail blk_a (s_init, D_empty)))) = []"
  by (simp add: saveBlock_def discover_def account_of_def store_defs sample_defs Let_def linkLoop.simps)

text \<open>
  A failing block save rejects with that error and leaves the \<^verbatim>\<open>Storage\<close> state and
  the store as they were; no outcome of a transaction save reaches the result or the
  chain position.
\<close>

lemma saveBlock_block_failure:
  "err_saveBlock E (delintBlock E b) = Some e \<Longrightarrow>
   saveBlock E b (s, D) = (Rejected e, s, D)"
  by (simp add: saveBlock_def da_saveBlock_def Let_def)

lemma discoverAll_transaction_errors_unused:
  "discoverAll (E\<lparr>err_saveTransaction := f\<rparr>) ds sd = discoverAll E ds sd"
proof -
  have "discover (E\<lparr>err_saveTransaction := f\<rparr>) d sd' = discover E d sd'" for d sd'
    by (simp add: discover_def da_saveAddress_def Let_def split: option.splits)
  then show ?thesis by (induction ds arbitrary: sd) (simp_all split: option.splits)
qed

lemma saveBlock_transaction_errors_unused:
  "fst (saveBlock (E\<lparr>err_saveTransaction := f\<rparr>) b sd) = fst (saveBlock E b sd) \<and>
   fst (snd (saveBlock (E\<lparr>err_saveTransaction := f\<rparr>) b sd)) = fst (snd (saveBlock E b sd))"
  by (simp add: saveBlock_def da_saveBlock_def delintBlock_def Let_def
        discoverAll_transaction_errors_unused split: option.splits prod.splits)

subsection \<open>Transaction expansion\<close>

text \<open>
  Claim C4, evaluated where it fails.  \<open>tx_b\<close> spends an output of \<open>tx_a\<close> and the
  fetch of \<open>tx_a\<close> fails: the promise of \<^verbatim>\<open>getExpandedTX\<close> is neither resolved
  nor rejected.
\<close>

theorem getExpandedTX_fetch_failure_pending:
  "getExpandedTX E_fetchfail D_txs ''b'' = (Pending, D_txs)"
  by (simp add: getExpandedTX_def settle_def store_defs sample_defs Let_def)

text \<open>A failing write-back is swallowed: the expanded transaction is still returned.\<close>

lemma getExpandedTX_write_failure_resolved:
  "getExpandedTX E_writefail D_txs ''b'' = (Resolved (tx_b\<lparr>tx_vin := [Spent out_alice]\<rparr>), D_txs)"
  by (simp add: getExpandedTX_def settle_def store_defs sample_defs Let_def)

text \<open>
  Claim C3 as stated fails.  The input of \<open>tx_c\<close> names position \<open>3\<close> of
  \<open>tx_a\<close>, which has one output: the first expansion resolves with an
  \<^verbatim>\<open>undefined\<close> input and stores it, the second expansion never settles.
\<close>

theorem expand_twice_counterexample:
  "fst (getExpandedTX E0 D_txs ''c'') = Resolved (tx_c\<lparr>tx_vin := [Undefined]\<rparr>) \<and>
   fst (getExpandedTX E0 (snd (getExpandedTX E0 D_txs ''c'')) ''c'') = Pending"
  by (simp add: getExpandedTX_def settle_def store_defs sample_defs Let_def)

lemma Promise_all_map_Resolved: "Promise_all (map Resolved vs) = Resolved vs"
  by (induction vs) simp_all

lemma Promise_all_ResolvedD: "Promise_all ps = Resolved vs \<Longrightarrow> ps = map Resolved vs"
  by (induction ps arbitrary: vs) (auto split: promise.splits)

lemma Promise_all_Resolved:
  "Promise_all ps = Resolved vs \<longleftrightarrow> ps = map Resolved vs"
  using Promise_all_map_Resolved Promise_all_ResolvedD by blast

lemma getExpandedTX_fetch_failure:
  assumes "getTX E D (Some txid) = Resolved (Some t)"
    and "\<not> (\<exists>entry \<in> set (tx_vin t). has_asset entry)"
    and "\<exists>entry \<in> set (tx_vin t). err_getTX E (txid_of entry) \<noteq> None"
  shows "getExpandedTX E D txid = (Pending, D)"
proof -
  from assms(3) obtain entry e where "entry \<in> set (tx_vin t)" "getTX E D (txid_of entry) = Rejected e"
    by (auto simp: getTX_def da_getTX_def)
  then have "Rejected e \<in> set (map (\<lambda>entry. getTX E D (txid_of entry)) (tx_vin t))"
    by force
  then have "\<And>res. Promise_all (map (\<lambda>entry. getTX E D (txid_of entry)) (tx_vin t)) \<noteq> Resolved res"
    unfolding Promise_all_Resolved by (metis imageE list.set_map promise.distinct(1))
  then show ?thesis using assms(1,2)
    by (simp add: getExpandedTX_def settle_def split: promise.splits)
qed

lemma getExpandedTX_write_errors_swallowed:
  "fst (getExpandedTX (E\<lparr>err_updateTransaction := f\<rparr>) D txid) = fst (getExpandedTX E D txid)"
  by (simp add: getExpandedTX_def getTX_def da_getTX_def Let_def split: promise.splits option.splits)

lemma those_None: "None \<in> set xs \<Longrightarrow> those xs = None"
  by (induction xs) (auto split: option.splits)

lemma early_no_write:
  assumes "\<exists>entry \<in> set vin. has_asset entry"
    and "Promise_all (map (\<lambda>entry. getTX E D (txid_of entry)) vin) = Resolved res"
  shows "those (map2 spent_output res vin) = None"
proof -
  from assms(2) have m: "map (\<lambda>entry. getTX E D (txid_of entry)) vin = map Resolved res"
    by (simp add: Promise_all_Resolved)
  then have len: "length res = length vin" by (metis length_map)
  from assms(1) obtain i where i: "i < length vin" "has_asset (vin ! i)"
    by (auto simp: in_set_conv_nth)
  from m i(1) len have "getTX E D (txid_of (vin ! i)) = Resolved (res ! i)"
    by (metis nth_map)
  moreover from i(2) have "txid_of (vin ! i) = None" by (cases "vin ! i") auto
  ultimately have "res ! i = None"
    by (auto simp: getTX_def da_getTX_def split: option.splits)
  then have "map2 spent_output res vin ! i = None" using i(1) len by simp
  then have "None \<in> set (map2 spent_output res vin)"
    using i(1) len by (metis length_map length_zip min.idem nth_mem)
  then show ?thesis by (rule those_None)
qed

lemma getExpandedTX_early:
  assumes "getTX E D (Some txid) = Resolved (Some t)"
    and "\<exists>entry \<in> set (tx_vin t). has_asset entry"
  shows "getExpandedTX E D txid = (Resolved t, D)"
  using assms early_no_write[OF assms(2), of E D]
  by (auto simp: getExpandedTX_def settle_def Let_def split: promise.splits)

lemma update_first_same: "find P xs = Some t \<Longrightarrow> update_first P (\<lambda>x. t) xs = xs"
  by (induction xs) (auto split: if_splits)

lemma find_update_first:
  "find P xs = Some t \<Longrightarrow> P t' \<Longrightarrow> find P (update_first P (\<lambda>x. t') xs) = Some t'"
  by (induction xs) (auto split: if_splits)

lemma getTX_found:
  "getTX E D (Some txid) = Resolved (Some t) \<Longrightarrow>
   err_getTX E (Some txid) = None \<and> find (\<lambda>x. tx_txid x = txid) (transactions D) = Some t \<and>
   tx_txid t = txid"
  by (auto simp: getTX_def da_getTX_def find_Some_iff split: option.splits)

lemma getExpandedTX_empty_vin:
  assumes "getTX E D (Some txid) = Resolved (Some t)" and "tx_vin t = []"
  shows "getExpandedTX E D txid = (Resolved t, D)"
proof -
  from getTX_found[OF assms(1)] have f: "find (\<lambda>x. tx_txid x = tx_txid t) (transactions D) = Some t"
    by simp
  have upd: "snd (da_updateTransaction E D t) = D"
    by (simp add: da_updateTransaction_def update_first_same[OF f] split: option.splits)
  have eq: "t\<lparr>tx_vin := []\<rparr> = t" using assms(2) by simp
  have "getExpandedTX E D txid =
          (Resolved (t\<lparr>tx_vin := []\<rparr>), snd (da_updateTransaction E D (t\<lparr>tx_vin := []\<rparr>)))"
    using assms by (simp add: getExpandedTX_def settle_def Let_def)
  then show ?thesis unfolding eq using upd by simp
qed

text \<open>
  Claim C3, amended.  A stored transaction whose inputs all carry an asset is returned
  as it is, and the store is not changed.  When an expansion resolves with a transaction
  that has no inputs or has at least one input carrying an asset, a second expansion on
  the resulting store resolves with the same transaction and leaves that store as it is.
\<close>

theorem expand_idempotent:
  "(getTX E D (Some txid) = Resolved (Some t) \<and> (\<forall>entry \<in> set (tx_vin t). has_asset entry)
      \<longrightarrow> getExpandedTX E D txid = (Resolved t, D)) \<and>
   (getExpandedTX E' D' txid' = (Resolved t1, D1) \<and>
      (tx_vin t1 = [] \<or> (\<exists>entry \<in> set (tx_vin t1). has_asset entry))
      \<longrightarrow> getExpandedTX E' D1 txid' = (Resolved t1, D1))"
proof (intro conjI impI)
  assume a: "getTX E D (Some txid) = Resolved (Some t) \<and> (\<forall>entry \<in> set (tx_vin t). has_asset entry)"
  show "getExpandedTX E D txid = (Resolved t, D)"
  proof (cases "tx_vin t = []")
    case True
    with a show ?thesis by (simp add: getExpandedTX_empty_vin)
  next
    case False
    then obtain entry where "entry \<in> set (tx_vin t)" by (cases "tx_vin t") auto
    with a have "\<exists>entry \<in> set (tx_vin t). has_asset entry" by blast
    with a show ?thesis by (simp add: getExpandedTX_early)
  qed
next
  assume b: "getExpandedTX E' D' txid' = (Resolved t1, D1) \<and>
      (tx_vin t1 = [] \<or> (\<exists>entry \<in> set (tx_vin t1). has_asset entry))"
  then have run: "getExpandedTX E' D' txid' = (Resolved t1, D1)"
    and shape: "tx_vin t1 = [] \<or> (\<exists>entry \<in> set (tx_vin t1). has_asset entry)"
    by blast+
  from run obtain t where g: "getTX E' D' (Some txid') = Resolved (Some t)"
    by (auto simp: getExpandedTX_def split: promise.splits option.splits)
  note f = getTX_found[OF g]
  have again: "getExpandedTX E' D1 txid' = (Resolved t1, D1)"
    if g1: "getTX E' D1 (Some txid') = Resolved (Some t1)"
    using shape getExpandedTX_empty_vin[OF g1] getExpandedTX_early[OF g1] by blast
  show "getExpandedTX E' D1 txid' = (Resolved t1, D1)"
  proof (cases "\<exists>entry \<in> set (tx_vin t). has_asset entry")
    case True
    from getExpandedTX_early[OF g True] run show ?thesis by simp
  next
    case False
    with run g obtain vin' where
      t1: "t1 = t\<lparr>tx_vin := vin'\<rparr>" and D1: "D1 = snd (da_updateTransaction E' D' t1)"
      by (auto simp: getExpandedTX_def settle_def Let_def split: promise.splits option.splits)
    show ?thesis
    proof (cases "err_updateTransaction E' t1")
      case (Some e)
      with D1 have "D1 = D'" by (simp add: da_updateTransaction_def)
      with run show ?thesis by simp
    next
      case None
      with D1 have D1': "D1 = D'\<lparr>transactions :=
          update_first (\<lambda>x. tx_txid x = tx_txid t1) (\<lambda>x. t1) (transactions D')\<rparr>"
        by (simp add: da_updateTransaction_def)
      have id: "tx_txid t1 = txid'" using t1 f by simp
      have "find (\<lambda>x. tx_txid x = txid') (transactions D1) = Some t1"
        using find_update_first[of "\<lambda>x. tx_txid x = txid'" "transactions D'" t t1] f id D1'
        by simp
      then have "getTX E' D1 (Some txid') = Resolved (Some t1)"
        using f by (simp add: getTX_def da_getTX_def)
      then show ?thesis by (rule again)
    qed
  qed
qed

text \<open>
  \<open>tx_b\<close> is expanded once from the mined form and once more from the stored
  result; both calls return the same transaction.
\<close>

theorem expand_idempotent_witness:
  "getTX E0 D_expanded (Some ''b'') = Resolved (Some tx_b_expanded) \<and>
   tx_vin tx_b_expanded = [Spent out_alice] \<and>
   getExpandedTX E0 D_txs ''b'' = (Resolved tx_b_expanded, D_expanded) \<and>
   getExpandedTX E0 D_expanded ''b'' = (Resolved tx_b_expanded, D_expanded)"
proof -
  have h1: "getTX E0 D_expanded (Some ''b'') = Resolved (Some tx_b_expanded)"
    by (simp add: store_defs sample_defs)
  have h2: "tx_vin tx_b_expanded = [Spent out_alice]"
    by (simp add: sample_defs)
  have h3: "getExpandedTX E0 D_txs ''b'' = (Resolved tx_b_expanded, D_expanded)"
    by (simp add: getExpandedTX_def settle_def store_defs sample_defs Let_def)
  have h4: "\<forall>entry \<in> set (tx_vin tx_b_expanded). has_asset entry"
    and h5: "tx_vin tx_b_expanded = [] \<or> (\<exists>entry \<in> set (tx_vin tx_b_expanded). has_asset entry)"
    using h2 by simp_all
  from expand_idempotent[of E0 D_expanded "''b''" tx_b_expanded E0 D_txs "''b''" tx_b_expanded D_expanded]
    h1 h3 h4 h5
  have "getExpandedTX E0 D_expanded ''b'' = (Resolved tx_b_expanded, D_expanded)"
    by blast
  with h1 h2 h3 show ?thesis by blast
qed

subsection \<open>Recomputing a balance\<close>














subsection \<open>The balance sheet of an address\<close>

lemma getBalance_existing:
  "da_getAddress E D address = Resolved (Some res) \<Longrightarrow>
   getBalance E s D address wanted blockAge_arg =
     (let blockAge = (case blockAge_arg of None \<Rightarrow> 1 | Some n \<Rightarrow> n);
          (ps, D1) = recomputeAll E s address (stale_part s res blockAge) D in
      case Promise_all ps of
        Resolved rs \<Rightarrow>
          (Resolved \<lparr>bal_address = address, bal_assets = fresh_part s res blockAge @ rs\<rparr>, D1)
      | Rejected e \<Rightarrow> (Pending, D1)
      | Pending \<Rightarrow> (Pending, D1))"
  by (subst getBalance.simps) (simp add: Let_def)

lemma getBalance_ignores_wanted:
  "getBalance E s D address wanted blockAge_arg = getBalance E s D address wanted' blockAge_arg"
  by (subst getBalance.simps, subst (2) getBalance.simps) (simp add: Let_def)

lemma getBalance_defaults:
  "getBalance E s D address None None = getBalance E s D address (Some (assets s)) (Some 1)"
  by (subst getBalance.simps, subst (2) getBalance.simps) (simp add: Let_def)

text \<open>
  Claim C7, evaluated where it fails.  The account of \<open>dave\<close> exists without
  entries and the registry is empty; the caller asks for \<open>neo\<close>.  The result holds no
  balance for \<open>neo\<close>: the parameter \<^verbatim>\<open>assets\<close> is never read, and the scan for
  missing entries walks the registry.  By \<open>getBalance_ignores_wanted\<close> this holds for
  every call.
\<close>

theorem getBalance_wanted_unused:
  "getBalance E0 s_100 D_dave ''dave'' (Some [neo_def]) (Some 1) =
     (Resolved \<lparr>bal_address = ''dave'', bal_assets = []\<rparr>, D_dave)"
  by (subst getBalance.simps)
     (simp add: da_getAddress_def stale_part_def fresh_part_def sample_defs Let_def)







lemma find_append_new: "find P xs = None \<Longrightarrow> P a \<Longrightarrow> find P (xs @ [a]) = Some a"
  by (induction xs) (auto split: if_splits)

lemma getBalance_retry:
  assumes "da_getAddress E D address = Resolved None"
    and "err_saveAddress E \<lparr>a_address = address, a_asset = None, a_type = ''c'', a_assets = []\<rparr> = None"
  shows "getBalance E s D address wanted blockAge_arg =
           getBalance E s
             (D\<lparr>addresses := addresses D @
                 [\<lparr>a_address = address, a_asset = None, a_type = ''c'', a_assets = []\<rparr>]\<rparr>)
             address None None"
proof -
  let ?acc = "\<lparr>a_address = address, a_asset = None, a_type = ''c'', a_assets = []\<rparr>"
  let ?D1 = "D\<lparr>addresses := addresses D @ [?acc]\<rparr>"
  from assms(1) have e: "err_getAddress E address = None"
    and n: "find (\<lambda>a. a_address a = address) (addresses D) = None"
    by (auto simp: da_getAddress_def split: option.splits)
  from n have "find (\<lambda>a. a_address a = address) (addresses D @ [?acc]) = Some ?acc"
    by (rule find_append_new) simp
  with e have g1: "da_getAddress E ?D1 address = Resolved (Some ?acc)"
    by (simp add: da_getAddress_def)
  have nr: "fst (getBalance E s ?D1 address None None) \<noteq> Rejected e'" for e'
    by (simp add: getBalance_existing[OF g1] Let_def split: prod.splits promise.splits)
  have sv: "da_saveAddress E D ?acc = (Resolved ?acc, ?D1)"
    using assms(2) by (simp add: da_saveAddress_def)
  obtain p D2 where r: "getBalance E s ?D1 address None None = (p, D2)" by force
  with nr have np: "\<And>e'. p \<noteq> Rejected e'" by (metis fst_conv)
  have "getBalance E s D address wanted blockAge_arg =
          (case p of Resolved r \<Rightarrow> (Resolved r, D2) | Rejected e' \<Rightarrow> (Pending, D2)
           | Pending \<Rightarrow> (Pending, D2))"
    using assms(1) sv r by (subst getBalance.simps) (simp add: Let_def)
  also have "\<dots> = (p, D2)"
    using np by (cases p) auto
  finally show ?thesis using r by simp
qed

text \<open>
  Claim C10.  For an address without account record, when the save of the empty record
  succeeds, \<^verbatim>\<open>getBalance\<close> with any \<^verbatim>\<open>assets\<close> and \<^verbatim>\<open>blockAge\<close> behaves as
  \<^verbatim>\<open>getBalance\<close> on the store that holds the new empty record, called with the
  registry and \<open>blockAge = 1\<close>: same outcome, same resulting store.
\<close>

theorem getBalance_retry_defaults:
  assumes "da_getAddress E D address = Resolved None"
    and "err_saveAddress E \<lparr>a_address = address, a_asset = None, a_type = ''c'', a_assets = []\<rparr> = None"
  shows "getBalance E s D address wanted blockAge_arg =
           getBalance E s
             (D\<lparr>addresses := addresses D @
                 [\<lparr>a_address = address, a_asset = None, a_type = ''c'', a_assets = []\<rparr>]\<rparr>)
             address (Some (assets s)) (Some 1)"
  using getBalance_retry[OF assms] getBalance_defaults by simp

text \<open>
  \<open>bob\<close> has no account yet; the caller asks for \<open>gas\<close> only, with
  \<open>blockAge = 10\<close>, and receives both assets of the registry.
\<close>

lemma getBalance_bob:
  "getBalance E0 s_reg (D_expanded\<lparr>addresses := addresses D_expanded @ [acc_bob]\<rparr>) ''bob''
       (Some (assets s_reg)) (Some 1) =
     (Resolved \<lparr>bal_address = ''bob'', bal_assets =
        [\<lparr>be_asset = ''neo'', be_balance = 3, be_index = 100, be_type = Some ''a''\<rparr>,
         \<lparr>be_asset = ''gas'', be_balance = 0, be_index = 100, be_type = Some ''a''\<rparr>]\<rparr>,
      D_expanded\<lparr>addresses := [acc_bob\<lparr>a_assets :=
        [\<lparr>be_asset = ''neo'', be_balance = 3, be_index = 100, be_type = Some ''a''\<rparr>,
         \<lparr>be_asset = ''gas'', be_balance = 0, be_index = 100, be_type = Some ''a''\<rparr>]\<rparr>]\<rparr>)"
  by (subst getBalance.simps)
     (simp add: stale_part_def fresh_part_def getAssetBalance_def
        touches_def blockIndex_key_def getExpandedTX_def settle_def store_defs add_vout_def
        sample_defs Let_def)

theorem getBalance_retry_defaults_witness:
  "da_getAddress E0 D_expanded ''bob'' = Resolved None \<and>
   fst (getBalance E0 s_reg D_expanded ''bob'' (Some [gas_def]) (Some 10)) =
     Resolved \<lparr>bal_address = ''bob'', bal_assets =
        [\<lparr>be_asset = ''neo'', be_balance = 3, be_index = 100, be_type = Some ''a''\<rparr>,
         \<lparr>be_asset = ''gas'', be_balance = 0, be_index = 100, be_type = Some ''a''\<rparr>]\<rparr>"
proof -
  have h1: "da_getAddress E0 D_expanded ''bob'' = Resolved None"
    by (simp add: da_getAddress_def sample_defs)
  have h2: "err_saveAddress E0 \<lparr>a_address = ''bob'', a_asset = None, a_type = ''c'', a_assets = []\<rparr> = None"
    by (simp add: E0_def)
  from getBalance_retry_defaults[OF h1 h2, of s_reg "Some [gas_def]" "Some 10"] getBalance_bob
  have "fst (getBalance E0 s_reg D_expanded ''bob'' (Some [gas_def]) (Some 10)) =
     Resolved \<lparr>bal_address = ''bob'', bal_assets =
        [\<lparr>be_asset = ''neo'', be_balance = 3, be_index = 100, be_type = Some ''a''\<rparr>,
         \<lparr>be_asset = ''gas'', be_balance = 0, be_index = 100, be_type = Some ''a''\<rparr>]\<rparr>"
    by (simp add: acc_bob_def)
  with h1 show ?thesis by simp
qed

subsection \<open>Scanning the stored blocks for gaps\<close>

text \<open>
  The inner loop leaves only through \<^verbatim>\<open>break\<close>, with the pointer on the block's
  index; started at or past that index it runs forever.
\<close>

lemma scanGap_exit:
  assumes "scanGap d pointer missing = Some r"
  shows "pointer < d"
proof (rule scanGap.raw_induct[where P = "\<lambda>d pointer missing r. pointer < d", OF _ assms])
  fix loop :: "int \<Rightarrow> int \<Rightarrow> int list \<Rightarrow> (int \<times> int list) option"
    and d' p' m' y
  assume IH: "\<And>d p m y. loop d p m = Some y \<Longrightarrow> p < d"
    and step: "(if d' = p' + 1 then Some (p' + 1, m') else loop d' (p' + 1) (m' @ [p' + 1])) = Some y"
  show "p' < d'"
  proof (cases "d' = p' + 1")
    case True
    then show ?thesis by simp
  next
    case False
    with step have "loop d' (p' + 1) (m' @ [p' + 1]) = Some y" by simp
    from IH[OF this] show ?thesis by simp
  qed
qed

lemma scanGap_no_exit: "d \<le> pointer \<Longrightarrow> scanGap d pointer missing = None"
  using scanGap_exit[of d pointer missing] by (cases "scanGap d pointer missing") auto

lemma scanGap_reaches:
  "pointer < d \<Longrightarrow> scanGap d pointer missing = Some (d, missing @ [pointer + 1..d - 1])"
proof (induction "nat (d - pointer)" arbitrary: pointer missing)
  case 0
  then show ?case by simp
next
  case (Suc n)
  show ?case
  proof (cases "d = pointer + 1")
    case True
    then show ?thesis by (subst scanGap.simps) simp
  next
    case False
    with Suc.prems have lt: "pointer + 1 < d" by simp
    from Suc.hyps(2) have "n = nat (d - (pointer + 1))" by simp
    from Suc.hyps(1)[OF this lt, of "missing @ [pointer + 1]"]
    have "scanGap d (pointer + 1) (missing @ [pointer + 1]) =
            Some (d, missing @ [pointer + 1] @ [pointer + 1 + 1..d - 1])"
      by simp
    moreover have "[pointer + 1..d - 1] = (pointer + 1) # [pointer + 1 + 1..d - 1]"
      using lt by (simp add: upto_rec1)
    ultimately show ?thesis using False by (subst scanGap.simps) simp
  qed
qed

lemma missing_split:
  assumes "pointer < d" and "d \<le> L" and "\<forall>x \<in> set ds. d < x"
  shows "filter (\<lambda>i. i \<notin> set (d # ds)) [pointer + 1..L] =
           [pointer + 1..d - 1] @ filter (\<lambda>i. i \<notin> set ds) [d + 1..L]"
proof -
  have sp: "[pointer + 1..L] = [pointer + 1..d - 1] @ d # [d + 1..L]"
    using assms(1,2) by (intro upto_split3) simp_all
  have a: "filter (\<lambda>i. i \<notin> set (d # ds)) [pointer + 1..d - 1] = [pointer + 1..d - 1]"
    using assms(3) by (auto simp: filter_id_conv)
  have b: "filter (\<lambda>i. i \<notin> set (d # ds)) [d + 1..L] = filter (\<lambda>i. i \<notin> set ds) [d + 1..L]"
    by (rule filter_cong) auto
  show ?thesis unfolding sp using a b by simp
qed

lemma scanStream_sorted:
  "sorted_wrt (<) ds \<Longrightarrow> \<forall>d \<in> set ds. pointer < d \<Longrightarrow>
   scanStream ds pointer missing =
     Some (missing @ filter (\<lambda>i. i \<notin> set ds) [pointer + 1..last (pointer # ds)])"
proof (induction ds arbitrary: pointer missing)
  case Nil
  then show ?case by simp
next
  case (Cons d ds)
  from Cons.prems have lt: "pointer < d" and above: "\<forall>x \<in> set ds. d < x"
    and srt: "sorted_wrt (<) ds"
    by simp_all
  have L: "d \<le> last (d # ds)"
    using above by (cases "ds = []") (auto simp: less_imp_le)
  from Cons.IH[OF srt above, of "missing @ [pointer + 1..d - 1]"]
  have "scanStream ds d (missing @ [pointer + 1..d - 1]) =
          Some (missing @ [pointer + 1..d - 1] @ filter (\<lambda>i. i \<notin> set ds) [d + 1..last (d # ds)])"
    by simp
  moreover have "last (pointer # d # ds) = last (d # ds)" by simp
  ultimately show ?case
    using scanGap_reaches[OF lt, of missing] missing_split[OF lt L above]
    by (simp del: last.simps)
qed

lemma stream_props:
  assumes "distinct (map b_index (blocks D))"
  shows "sorted_wrt (<) (map b_index
      (sort_key b_index (filter (\<lambda>b. start \<le> b_index b \<and> b_index b \<le> end) (blocks D))))"
    and "set (map b_index
      (sort_key b_index (filter (\<lambda>b. start \<le> b_index b \<and> b_index b \<le> end) (blocks D))))
      = in_range D start end"
proof -
  let ?stream = "map b_index
      (sort_key b_index (filter (\<lambda>b. start \<le> b_index b \<and> b_index b \<le> end) (blocks D)))"
  have "distinct (map b_index (filter (\<lambda>b. start \<le> b_index b \<and> b_index b \<le> end) (blocks D)))"
    using assms(1) by (rule distinct_map_filter)
  then have "distinct ?stream"
    by (simp add: distinct_map)
  moreover have "sorted ?stream" by simp
  ultimately show "sorted_wrt (<) ?stream" by (simp add: strict_sorted_iff)
  show "set ?stream = in_range D start end"
    unfolding in_range_def stored_def by auto
qed

lemma last_sorted_Max:
  "sorted (ds :: int list) \<Longrightarrow> ds \<noteq> [] \<Longrightarrow> last ds = Max (set ds)"
proof (induction ds)
  case Nil
  then show ?case by simp
next
  case (Cons d ds)
  show ?case
  proof (cases "ds = []")
    case True
    then show ?thesis by simp
  next
    case False
    with Cons have "last ds = Max (set ds)" by simp
    moreover from False obtain a where "a \<in> set ds" by (cases ds) auto
    with Cons.prems False have "d \<le> Max (set ds)" by (auto simp: Max_ge_iff)
    ultimately show ?thesis using False by (simp add: max_def)
  qed
qed

text \<open>
  Claim C8.  With at most one stored block per index, \<^verbatim>\<open>verifyBlocks(start, end)\<close>
  of the store resolves with the indices from \<open>start\<close> up to the highest stored index
  of the range that are not stored, in ascending order, and with the empty list when no
  stored index lies in the range.  Indices above the highest stored index of the range
  are never reported, whatever \<open>end\<close> is.
\<close>

theorem verifyBlocks_missing:
  assumes "distinct (map b_index (blocks D))"
  shows "da_verifyBlocks D start end =
           Resolved (if in_range D start end = {} then []
                     else filter (\<lambda>i. i \<notin> stored D) [start..Max (in_range D start end)])"
proof -
  let ?stream = "map b_index
      (sort_key b_index (filter (\<lambda>b. start \<le> b_index b \<and> b_index b \<le> end) (blocks D)))"
  note sp = stream_props[OF assms, of start "end"]
  have low: "\<forall>d \<in> set ?stream. start - 1 < d"
    unfolding sp(2) by (auto simp: in_range_def)
  from scanStream_sorted[OF sp(1) low, of "[]"]
  have run: "scanStream ?stream (start - 1) [] =
      Some (filter (\<lambda>i. i \<notin> set ?stream) [start..last ((start - 1) # ?stream)])"
    by simp
  have res: "filter (\<lambda>i. i \<notin> set ?stream) [start..last ((start - 1) # ?stream)] =
      (if in_range D start end = {} then []
       else filter (\<lambda>i. i \<notin> stored D) [start..Max (in_range D start end)])"
  proof (cases "in_range D start end = {}")
    case True
    with sp(2) have "?stream = []" by (metis set_empty)
    then show ?thesis using True by simp
  next
    case False
    with sp(2) have ne: "?stream \<noteq> []" by (metis set_empty)
    then have l: "last ((start - 1) # ?stream) = Max (in_range D start end)"
      using last_sorted_Max[OF strict_sorted_imp_sorted[OF sp(1)]] sp(2) by simp
    have fin: "finite (in_range D start end)" unfolding sp(2)[symmetric] by simp
    from Max_in[OF fin False] have "Max (in_range D start end) \<le> end"
      by (simp add: in_range_def)
    then have "filter (\<lambda>i. i \<notin> set ?stream) [start..Max (in_range D start end)] =
        filter (\<lambda>i. i \<notin> stored D) [start..Max (in_range D start end)]"
      unfolding sp(2) by (intro filter_cong) (auto simp: in_range_def)
    then show ?thesis using False l by (simp del: last.simps)
  qed
  show ?thesis
    unfolding da_verifyBlocks_def Let_def run res by simp
qed

text \<open>
  By evaluation: the example of the specification, and a scan whose range extends past
  the last stored block.
\<close>

lemma verifyBlocks_example:
  "da_verifyBlocks D_gap 0 5 = Resolved [2]"
  by (simp add: da_verifyBlocks_def D_gap_def blk_def scanGap.simps Let_def)

lemma verifyBlocks_trailing:
  "da_verifyBlocks D_two 0 5 = Resolved [1]"
  by (simp add: da_verifyBlocks_def D_two_def blk_def scanGap.simps Let_def)

text \<open>With two stored blocks of one index the scan never ends.\<close>

lemma verifyBlocks_duplicate:
  "da_verifyBlocks D_dup 0 5 = Pending"
  by (simp add: da_verifyBlocks_def D_dup_def blk_def scanGap_reaches scanGap_no_exit)

lemma verifyBlocks_wrapper:
  "verifyBlocks s D (Some start) (Some end) = da_verifyBlocks D start end"
  "verifyBlocks s D None None = da_verifyBlocks D 0 (index s)"
  by (simp_all add: verifyBlocks_def)

text \<open>Stored indices \<open>{0, 1, 3, 4, 5}\<close>, range \<open>0..5\<close>: the result is \<open>[2]\<close>.\<close>

theorem verifyBlocks_missing_witness:
  "distinct (map b_index (blocks D_gap)) \<and> stored D_gap = {0, 1, 3, 4, 5} \<and>
   da_verifyBlocks D_gap 0 5 = Resolved [2]"
proof -
  have h: "distinct (map b_index (blocks D_gap))"
    by (simp add: D_gap_def blk_def)
  have st: "stored D_gap = {0, 1, 3, 4, 5}"
    by (auto simp: stored_def D_gap_def blk_def)
  have r: "in_range D_gap 0 5 = {0, 1, 3, 4, 5}"
    unfolding in_range_def st by auto
  have f: "filter (\<lambda>i. i \<notin> {0, 1, 3, 4, 5}) [0..5] = [2::int]"
    by (simp add: upto.simps)
  from verifyBlocks_missing[OF h, of 0 5]
  have "da_verifyBlocks D_gap 0 5 = Resolved [2]"
    unfolding r st using f by simp
  with h st show ?thesis by simp
qed

subsection \<open>The stored height\<close>

lemma newest_first:
  "xs \<noteq> [] \<Longrightarrow> (case rev xs of [] \<Rightarrow> a | r # others \<Rightarrow> g r) = g (last xs)"
  by (cases xs rule: rev_cases) auto

lemma highest_index:
  assumes "bs \<noteq> []"
  shows "b_index (last (sort_key b_index bs)) = Max (b_index ` set bs)"
proof -
  have ne: "sort_key b_index bs \<noteq> []" using assms by (metis set_empty set_sort)
  have "last (map b_index (sort_key b_index bs)) = Max (set (map b_index (sort_key b_index bs)))"
    using ne by (intro last_sorted_Max) simp_all
  then show ?thesis using ne by (simp add: last_map)
qed

lemma da_getBlockCount_value:
  "err_getBlockCount E = None \<Longrightarrow>
   da_getBlockCount E D = Resolved (if blocks D = [] then 0 else Max (stored D) + 1)"
proof (cases "blocks D = []")
  case True
  assume "err_getBlockCount E = None"
  with True show ?thesis by (simp add: da_getBlockCount_def)
next
  case False
  assume e: "err_getBlockCount E = None"
  from False have ne: "sort_key b_index (blocks D) \<noteq> []" by (metis set_empty set_sort)
  show ?thesis
    using e False newest_first[OF ne, of "- 1" b_index] highest_index[OF False]
    by (simp add: da_getBlockCount_def stored_def)
qed

text \<open>
  Claim C9, amended.  \<^verbatim>\<open>getBlockCount\<close> resolves with the highest stored block
  index plus one, and with \<open>0\<close> when no block is stored; it sets \<open>index\<close> to the
  highest stored index (\<open>-1\<close> when there is none) and \<open>blockHeight\<close> to
  \<open>index + 1\<close>.  The result is the number of stored blocks when the stored indices
  are exactly \<open>0\<close> up to that number minus one.
\<close>

theorem getBlockCount_height:
  assumes "err_getBlockCount E = None"
  shows "fst (getBlockCount E s D) = Resolved (if blocks D = [] then 0 else Max (stored D) + 1) \<and>
         index (snd (getBlockCount E s D)) = (if blocks D = [] then - 1 else Max (stored D)) \<and>
         blockHeight (snd (getBlockCount E s D)) = index (snd (getBlockCount E s D)) + 1 \<and>
         (stored D = {0..<int (length (blocks D))} \<longrightarrow>
            fst (getBlockCount E s D) = Resolved (int (length (blocks D))))"
proof -
  note v = da_getBlockCount_value[OF assms, of D]
  have a: "fst (getBlockCount E s D) = Resolved (if blocks D = [] then 0 else Max (stored D) + 1)"
    and b: "index (snd (getBlockCount E s D)) = (if blocks D = [] then - 1 else Max (stored D))"
    and c: "blockHeight (snd (getBlockCount E s D)) = index (snd (getBlockCount E s D)) + 1"
    unfolding getBlockCount_def v by simp_all
  have d: "fst (getBlockCount E s D) = Resolved (int (length (blocks D)))"
    if st: "stored D = {0..<int (length (blocks D))}"
  proof (cases "blocks D = []")
    case True
    with a show ?thesis by simp
  next
    case False
    then have pos: "0 < int (length (blocks D))" by simp
    have "{0..<int (length (blocks D))} = {0..int (length (blocks D)) - 1}" by auto
    moreover have "Max {0..int (length (blocks D)) - 1} = int (length (blocks D)) - 1"
      using pos by (intro Max_eqI) auto
    ultimately have "Max (stored D) = int (length (blocks D)) - 1"
      unfolding st by simp
    with a False show ?thesis by simp
  qed
  from a b c d show ?thesis by blast
qed

text \<open>
  Claim C9 as stated fails.  With blocks \<open>0\<close> and \<open>2\<close> stored (block \<open>1\<close> has
  not arrived) the result is \<open>3\<close>, not the count \<open>2\<close>, and \<open>index\<close> becomes
  \<open>2\<close>.
\<close>

theorem getBlockCount_not_count:
  "fst (getBlockCount E0 s_init D_two) = Resolved 3 \<and> length (blocks D_two) = 2 \<and>
   index (snd (getBlockCount E0 s_init D_two)) = 2 \<and> stored D_two = {0, 2}"
  by (auto simp: getBlockCount_def da_getBlockCount_def E0_def D_two_def blk_def stored_def)

text \<open>Blocks \<open>1\<close>, \<open>0\<close>, \<open>2\<close> stored: the result is \<open>3\<close>, the count.\<close>

theorem getBlockCount_height_witness:
  "err_getBlockCount E0 = None \<and> stored D_three = {0..<int (length (blocks D_three))} \<and>
   fst (getBlockCount E0 s_init D_three) = Resolved 3 \<and>
   index (snd (getBlockCount E0 s_init D_three)) = 2"
proof -
  have h: "err_getBlockCount E0 = None" by (simp add: E0_def)
  have st: "stored D_three = {0..<int (length (blocks D_three))}"
    by (auto simp: stored_def D_three_def blk_def)
  have ne: "blocks D_three \<noteq> []" "length (blocks D_three) = 3"
    by (simp_all add: D_three_def)
  from getBlockCount_height[OF h, of s_init D_three] st
  have "fst (getBlockCount E0 s_init D_three) = Resolved (int (length (blocks D_three)))"
    and "index (snd (getBlockCount E0 s_init D_three)) + 1 = int (length (blocks D_three))"
    by auto
  with h st ne show ?thesis by simp
qed

lemma getBlockCount_failure:
  "err_getBlockCount E = Some e \<Longrightarrow> getBlockCount E s D = (Rejected e, s)"
  by (simp add: getBlockCount_def da_getBlockCount_def)


end
